theory Spec2Isabelle
  imports Main "HOL-Library.Word" "HOL-Library.Signed_Division"
begin

unbundle bit_operations_syntax

section \<open>MotorDriver.cpp: data model\<close>

text \<open>
  The C++ integer types are modelled as machine words. \<open>byte\<close>, \<open>int8_t\<close>, \<open>int16_t\<close>,
  \<open>int32_t\<close> and \<open>unsigned long\<close> have the widths Arduino gives them on every target.
  The width of \<open>int\<close> and \<open>unsigned int\<close> depends on the target (16 bits on AVR, 32 bits on
  SAMD, STM32 and ESP32), so it is the type parameter \<open>'w\<close> of the whole development (the
  casts to and from \<open>int32_t\<close> are the C++ ones for widths up to 32): a value
  of either type is a \<open>'w word\<close>, read with \<open>sint\<close> where the source declares it \<open>int\<close> and
  with \<open>unat\<close>/\<open>uint\<close> where it declares it \<open>unsigned int\<close>. Signed overflow, which is
  undefined behaviour in C++, wraps in the model; conversions between integer types are
  the modular ones of the compilers in use.
\<close>

type_synonym byte = "8 word"

datatype POWERMODE = OFF | ON | OVERLOAD

datatype pin_level = LOW | HIGH

datatype pin_dir = INPUT | OUTPUT

text \<open>
  The diagnostic messages of \<open>DIAG(...)\<close>, with the arguments they print. The track letter
  \<open>trackno + 'A'\<close> is kept as \<open>trackno\<close>; the analog pin index \<open>currentPin-A0\<close> is the
  integer the promoted subtraction gives.
\<close>

datatype 'i diag =
    NoCurrentDetection
  | CurrentPinInfo int 'i 'i
  | CommonFaultPinActive byte
  | FaultPinActive byte
  | PowerOverload byte 'i 'i 'i
  | PowerRestore byte 'i

text \<open>
  The calls the driver makes to its external collaborators (GPIO, PWM, waveform generator,
  diagnostics). A driver state carries the sequence of calls made so far in \<open>calls\<close>, which
  is not a member of the C++ class. Interrupt masking, the fast-pin register pointers, the
  port shadow copies around \<open>setSignal\<close> and the PWM carrier frequency registers are not
  modelled: every branch of the shadow-port cascade in \<open>setDCSignal\<close> performs the same
  \<open>setSignal(tDir)\<close>.
\<close>

datatype 'i backend_call =
    IODevice_write "16 word" pin_level
  | pinMode byte pin_dir
  | analogWrite "16 word" byte
  | setSignal bool
  | clearResets
  | DIAG "'i diag"

text \<open>
  Constants that \<open>MotorDriver.cpp\<close> uses and that are declared outside it (in
  \<open>MotorDriver.h\<close>, by the Arduino core, or by the ADC backend). They are parameters of
  the model.
\<close>

record (overloaded) ('w::len) constants =
  UNUSED_PIN :: int
  A0 :: int
  senseScale :: "'w word"
  TRIP_CURRENT_PROG :: "'w word"
  POWER_SAMPLE_ON_WAIT :: "'w word"
  POWER_SAMPLE_OFF_WAIT :: "'w word"
  POWER_SAMPLE_OVERLOAD_WAIT :: "'w word"
  ADCmax :: "'w word"

text \<open>
  The members of class \<open>MotorDriver\<close> that the modelled functions read or write. The class
  is declared in \<open>MotorDriver.h\<close>; the member types follow the way the source file uses them:
  \<open>int\<close> for \<open>senseOffset\<close>, \<open>senseFactorInternal\<close>, \<open>rawCurrentTripValue\<close>, \<open>progTripValue\<close>
  and \<open>lastCurrent\<close> (compared and negated as signed values, printed with \<open>%d\<close>),
  \<open>unsigned int\<close> for \<open>tripMilliamps\<close>, \<open>sampleDelay\<close>, \<open>power_sample_overload_wait\<close> and
  \<open>power_good_counter\<close>, \<open>unsigned long\<close> for \<open>lastSampleTaken\<close> (it holds \<open>millis()\<close>), and
  \<open>byte\<close> for the pins and the speed code.
\<close>

record (overloaded) ('w::len) motor_driver =
  powerPin :: "16 word"
  invertPower :: bool
  signalPin :: byte
  signalPin2 :: byte
  dualSignal :: bool
  brakePin :: byte
  invertBrake :: bool
  currentPin :: byte
  faultPin :: byte
  senseOffset :: "'w word"
  senseFactorInternal :: "'w word"
  tripMilliamps :: "'w word"
  rawCurrentTripValue :: "'w word"
  progTripValue :: "'w word"
  sampleDelay :: "'w word"
  lastSampleTaken :: "32 word"
  powerMode :: POWERMODE
  lastCurrent :: "'w word"
  power_sample_overload_wait :: "'w word"
  power_good_counter :: "'w word"
  DCinuse :: bool
  curSpeedCode :: byte
  isProgTrack :: bool
  calls :: "'w word backend_call list"

text \<open>
  What one call of \<open>checkPowerOverload\<close> reads from the hardware: the two results of
  \<open>millis()\<close>, the sample \<open>ADCee::read(currentPin, fromISR)\<close> and whether the fault pin
  reads low (\<open>isLOW(fastFaultPin)\<close>, the active level).
\<close>

record (overloaded) ('w::len) readings =
  millis1 :: "32 word"
  millis2 :: "32 word"
  adc :: "'w word"
  fault_low :: bool

definition call :: "'w word backend_call \<Rightarrow> 'w::len motor_driver \<Rightarrow> 'w motor_driver" where
  "call c d = d\<lparr>calls := calls d @ [c]\<rparr>"

section \<open>Conversions between raw ADC units and milliamps\<close>

text \<open>
  Division of \<open>int32_t\<close> values truncates towards zero. Division by zero and
  \<open>INT32_MIN / -1\<close> are undefined in C++; here the first is 0 and the second wraps.
\<close>

definition sdiv32 :: "32 word \<Rightarrow> 32 word \<Rightarrow> 32 word" where
  "sdiv32 a b = word_of_int (sint a sdiv sint b)"

text \<open>\<open>return (int32_t)raw * senseFactorInternal / senseScale;\<close> with \<open>int raw\<close>.\<close>

definition raw2mA :: "'w::len constants \<Rightarrow> 'w motor_driver \<Rightarrow> 'w word \<Rightarrow> 'w word" where
  "raw2mA K d raw =
     ucast (sdiv32 ((scast raw :: 32 word) * scast (senseFactorInternal d)) (scast (senseScale K)))"

text \<open>\<open>return (int32_t)mA * senseScale / senseFactorInternal;\<close> with \<open>unsigned int mA\<close>.\<close>

definition mA2raw :: "'w::len constants \<Rightarrow> 'w motor_driver \<Rightarrow> 'w word \<Rightarrow> 'w word" where
  "mA2raw K d mA =
     ucast (sdiv32 ((ucast mA :: 32 word) * scast (senseScale K)) (scast (senseFactorInternal d)))"

section \<open>DC signal and power switching\<close>

definition setDCSignal :: "byte \<Rightarrow> 'w::len motor_driver \<Rightarrow> 'w motor_driver" where
  "setDCSignal speedcode d =
     (let d1 = d\<lparr>curSpeedCode := speedcode, DCinuse := True\<rparr>;
          tSpeed = speedcode AND 0x7F;
          tDir = speedcode AND 0x80;
          pwmratio = (if tSpeed \<le> 1 then 0 else if tSpeed \<ge> 127 then 255 else 2 * tSpeed);
          pwmratio' = (if invertPower d1 then 255 - pwmratio else pwmratio)
      in call (setSignal (tDir \<noteq> 0)) (call (analogWrite (powerPin d1) pwmratio') d1))"

definition setPower :: "POWERMODE \<Rightarrow> 'w::len motor_driver \<Rightarrow> 'w motor_driver" where
  "setPower mode d =
     (let on = (mode = ON);
          d3 = (if on then
                  (let d1 = call (IODevice_write (powerPin d) (if invertPower d then LOW else HIGH)) d;
                       d2 = (if DCinuse d1 then setDCSignal (curSpeedCode d1) d1 else d1)
                   in if isProgTrack d2 then call clearResets d2 else d2)
                else
                  (let d1 = call (IODevice_write (powerPin d) (if invertPower d then HIGH else LOW)) d
                   in if DCinuse d1 then
                        (let s = curSpeedCode d1;
                             d2 = setDCSignal 128 d1
                         in d2\<lparr>curSpeedCode := s\<rparr>)
                      else d1))
      in d3\<lparr>powerMode := mode\<rparr>)"

section \<open>Current reading\<close>

definition getCurrentRaw ::
  "'w::len constants \<Rightarrow> 'w readings \<Rightarrow> 'w motor_driver \<Rightarrow> 'w word" where
  "getCurrentRaw K e d =
     (if uint (currentPin d) = UNUSED_PIN K then 0
      else
        (let current0 = adc e - senseOffset d;
             current = (if current0 <s 0 then 0 - current0 else current0)
         in if uint (faultPin d) \<noteq> UNUSED_PIN K \<and> fault_low e \<and> powerMode d = ON
            then (if current = 0 then - 1 else - current)
            else current))"

section \<open>Construction\<close>


section \<open>Overload protection\<close>

text \<open>
  Modelled from the spec: \<open>getRawCurrentTripValue()\<close> is declared in \<open>MotorDriver.h\<close>, which
  is not among the sources. The spec gives the trip threshold as \<open>progTripRaw\<close> under the
  programming limit and \<open>tripRaw\<close> otherwise, so the accessor returns the stored
  \<open>rawCurrentTripValue\<close>.
\<close>

definition getRawCurrentTripValue :: "'w::len motor_driver \<Rightarrow> 'w word" where
  "getRawCurrentTripValue d = rawCurrentTripValue d"

text \<open>
  \<open>commonFaultPin\<close> is the static member shared by all drivers. The \<open>default\<close> label of the
  \<open>switch\<close> has no counterpart: \<open>POWERMODE\<close> has three values.
\<close>

definition checkPowerOverload ::
  "'w::len constants \<Rightarrow> bool \<Rightarrow> bool \<Rightarrow> byte \<Rightarrow> 'w readings \<Rightarrow> 'w motor_driver \<Rightarrow> 'w motor_driver" where
  "checkPowerOverload K commonFaultPin useProgLimit trackno e d =
     (if millis1 e - lastSampleTaken d < ucast (sampleDelay d) then d
      else
        (let d1 = d\<lparr>lastSampleTaken := millis2 e\<rparr>;
             tripValue = (if useProgLimit then progTripValue d1 else getRawCurrentTripValue d1)
         in case powerMode d1 of
              OFF \<Rightarrow> d1\<lparr>sampleDelay := POWER_SAMPLE_OFF_WAIT K\<rparr>
            | ON \<Rightarrow>
                (let d2 = d1\<lparr>lastCurrent := getCurrentRaw K e d1\<rparr>;
                     d5 = (if lastCurrent d2 <s 0 then
                             (let d3 = d2\<lparr>lastCurrent := - lastCurrent d2\<rparr>;
                                  d4 = setPower OVERLOAD d3
                              in if commonFaultPin then
                                   call (DIAG (CommonFaultPinActive trackno))
                                     (if lastCurrent d4 <s tripValue then setPower ON d4 else d4)
                                 else
                                   (let d4' = call (DIAG (FaultPinActive trackno)) d4
                                    in if lastCurrent d4' <s tripValue
                                       then d4'\<lparr>lastCurrent := tripValue\<rparr> else d4'))
                           else d2)
                 in if lastCurrent d5 <s tripValue then
                      (let d6 = d5\<lparr>sampleDelay := POWER_SAMPLE_ON_WAIT K\<rparr>
                       in if power_good_counter d6 < 100
                          then d6\<lparr>power_good_counter := power_good_counter d6 + 1\<rparr>
                          else if POWER_SAMPLE_OVERLOAD_WAIT K < power_sample_overload_wait d6
                               then d6\<lparr>power_sample_overload_wait := POWER_SAMPLE_OVERLOAD_WAIT K\<rparr>
                               else d6)
                    else
                      (let d6 = setPower OVERLOAD d5;
                           mA = raw2mA K d6 (lastCurrent d6);
                           maxmA = raw2mA K d6 tripValue;
                           d7 = d6\<lparr>power_good_counter := 0\<rparr>;
                           d8 = d7\<lparr>sampleDelay := power_sample_overload_wait d7\<rparr>;
                           d9 = call (DIAG (PowerOverload trackno mA maxmA (sampleDelay d8))) d8
                       in if 10000 \<le> power_sample_overload_wait d9
                          then d9\<lparr>power_sample_overload_wait := 10000\<rparr>
                          else d9\<lparr>power_sample_overload_wait := power_sample_overload_wait d9 * 2\<rparr>))
            | OVERLOAD \<Rightarrow>
                (let d2 = setPower ON d1;
                     d3 = d2\<lparr>sampleDelay := POWER_SAMPLE_ON_WAIT K\<rparr>
                 in call (DIAG (PowerRestore trackno (sampleDelay d3))) d3)))"

section \<open>The duty mapping as the specification words it\<close>

text \<open>
  The specification's duty mapping, on natural numbers: speed at most 1 gives duty 0, speed
  at least 127 gives duty 255, any other speed gives twice the speed. It is compared below
  with what \<open>setDCSignal\<close> computes on bytes.
\<close>

definition spec_duty :: "nat \<Rightarrow> nat" where
  "spec_duty speed = (if speed \<le> 1 then 0 else if speed \<ge> 127 then 255 else 2 * speed)"

section \<open>Polling\<close>

text \<open>
  The host calls \<open>checkPowerOverload\<close> again and again; \<open>run_checks\<close> is that loop over the
  successive hardware readings.
\<close>

fun run_checks ::
  "'w::len constants \<Rightarrow> bool \<Rightarrow> bool \<Rightarrow> byte \<Rightarrow> 'w readings list \<Rightarrow> 'w motor_driver \<Rightarrow> 'w motor_driver" where
  "run_checks K cfp upl tn [] d = d"
| "run_checks K cfp upl tn (e # es) d = run_checks K cfp upl tn es (checkPowerOverload K cfp upl tn e d)"

text \<open>A check is effective when the rate limit at its head lets it through.\<close>

definition effective :: "'w::len readings \<Rightarrow> 'w motor_driver \<Rightarrow> bool" where
  "effective e d = (\<not> millis1 e - lastSampleTaken d < ucast (sampleDelay d))"

text \<open>The threshold a check compares with, and the magnitude it compares.\<close>

definition trip_threshold :: "bool \<Rightarrow> 'w::len motor_driver \<Rightarrow> 'w word" where
  "trip_threshold upl d = (if upl then progTripValue d else getRawCurrentTripValue d)"

definition measured :: "'w::len constants \<Rightarrow> 'w readings \<Rightarrow> 'w motor_driver \<Rightarrow> 'w word" where
  "measured K e d =
     (let r = getCurrentRaw K e d in if r <s 0 then - r else r)"

text \<open>
  A healthy check: effective, power on, no fault indication, magnitude below the
  threshold. A tripping check: effective, power on, magnitude at or above the threshold.
\<close>

definition healthy_check :: "'w::len constants \<Rightarrow> bool \<Rightarrow> 'w readings \<Rightarrow> 'w motor_driver \<Rightarrow> bool" where
  "healthy_check K upl e d =
     (effective e d \<and> powerMode d = ON \<and> \<not> getCurrentRaw K e d <s 0 \<and>
      getCurrentRaw K e d <s trip_threshold upl d)"

definition tripping_check :: "'w::len constants \<Rightarrow> bool \<Rightarrow> 'w readings \<Rightarrow> 'w motor_driver \<Rightarrow> bool" where
  "tripping_check K upl e d =
     (effective e d \<and> powerMode d = ON \<and> \<not> measured K e d <s trip_threshold upl d)"

fun healthy_checks ::
  "'w::len constants \<Rightarrow> bool \<Rightarrow> bool \<Rightarrow> byte \<Rightarrow> 'w readings list \<Rightarrow> 'w motor_driver \<Rightarrow> bool" where
  "healthy_checks K cfp upl tn [] d = True"
| "healthy_checks K cfp upl tn (e # es) d =
     (healthy_check K upl e d \<and> healthy_checks K cfp upl tn es (checkPowerOverload K cfp upl tn e d))"

text \<open>
  Consecutive overloads: each tripping check is followed by the effective check that
  switches the power on again. \<open>trip_delays\<close> lists the \<open>sampleDelay\<close> each trip assigns.
\<close>

fun overload_cycles ::
  "'w::len constants \<Rightarrow> bool \<Rightarrow> bool \<Rightarrow> byte \<Rightarrow> ('w readings \<times> 'w readings) list \<Rightarrow>
   'w motor_driver \<Rightarrow> bool" where
  "overload_cycles K cfp upl tn [] d = True"
| "overload_cycles K cfp upl tn ((e1, e2) # ps) d =
     (tripping_check K upl e1 d \<and>
      effective e2 (checkPowerOverload K cfp upl tn e1 d) \<and>
      overload_cycles K cfp upl tn ps
        (checkPowerOverload K cfp upl tn e2 (checkPowerOverload K cfp upl tn e1 d)))"

fun trip_delays ::
  "'w::len constants \<Rightarrow> bool \<Rightarrow> bool \<Rightarrow> byte \<Rightarrow> ('w readings \<times> 'w readings) list \<Rightarrow>
   'w motor_driver \<Rightarrow> 'w word list" where
  "trip_delays K cfp upl tn [] d = []"
| "trip_delays K cfp upl tn ((e1, e2) # ps) d =
     sampleDelay (checkPowerOverload K cfp upl tn e1 d) #
     trip_delays K cfp upl tn ps
       (checkPowerOverload K cfp upl tn e2 (checkPowerOverload K cfp upl tn e1 d))"

text \<open>
  The backoff update at the end of a trip, \<open>if (power_sample_overload_wait >= 10000)
  power_sample_overload_wait = 10000; else power_sample_overload_wait *= 2;\<close>, iterated:
  the delays of \<open>n\<close> trips in a row when the first finds the backoff at \<open>w\<close>.
\<close>

fun backoff_delays :: "nat \<Rightarrow> 'w::len word \<Rightarrow> 'w word list" where
  "backoff_delays 0 w = []"
| "backoff_delays (Suc n) w = w # backoff_delays n (if 10000 \<le> w then 10000 else w * 2)"

section \<open>An example installation\<close>

text \<open>
  A 16-bit target with example values for the constants and one main-track driver on a
  standard motor shield (sense factor 2.99, scaled by 256 to 765; trip current 2000 mA;
  current sense on pin 14; no fault pin), switched on. The theorems below are instantiated
  on it.
\<close>

definition stock_constants :: "16 constants" where
  "stock_constants =
     \<lparr>UNUSED_PIN = 127, A0 = 14, senseScale = 256, TRIP_CURRENT_PROG = 250,
      POWER_SAMPLE_ON_WAIT = 100, POWER_SAMPLE_OFF_WAIT = 1000,
      POWER_SAMPLE_OVERLOAD_WAIT = 20, ADCmax = 1023\<rparr>"

definition main_track :: "16 motor_driver" where
  "main_track =
     \<lparr>powerPin = 3, invertPower = False, signalPin = 12, signalPin2 = 127, dualSignal = False,
      brakePin = 9, invertBrake = False, currentPin = 14, faultPin = 127,
      senseOffset = 0, senseFactorInternal = 765, tripMilliamps = 2000,
      rawCurrentTripValue = 669, progTripValue = 83,
      sampleDelay = 0, lastSampleTaken = 0, powerMode = ON, lastCurrent = 0,
      power_sample_overload_wait = 20, power_good_counter = 0,
      DCinuse = False, curSpeedCode = 0, isProgTrack = False, calls = []\<rparr>"

text \<open>A reading taken at time \<open>t\<close>, and \<open>n\<close> readings \<open>dt\<close> milliseconds apart.\<close>

definition reading :: "32 word \<Rightarrow> 'w::len word \<Rightarrow> bool \<Rightarrow> 'w readings" where
  "reading t a f = \<lparr>millis1 = t, millis2 = t, adc = a, fault_low = f\<rparr>"

fun polls :: "32 word \<Rightarrow> 32 word \<Rightarrow> nat \<Rightarrow> 'w::len word \<Rightarrow> bool \<Rightarrow> 'w readings list" where
  "polls t dt 0 a f = []"
| "polls t dt (Suc n) a f = reading t a f # polls (t + dt) dt n a f"

section \<open>Helper lemmas: backend calls\<close>

lemma calls_call: "calls (call c d) = calls d @ [c]"
  by (simp add: call_def)

lemma and_7F_unat: "unat ((c::8 word) AND 0x7F) = unat c mod 128"
proof -
  have "(0x7F::8 word) = mask 7" by (simp add: mask_eq_exp_minus_1)
  then have "c AND 0x7F = take_bit 7 c" by (simp add: take_bit_eq_mask)
  then show ?thesis by (simp add: unsigned_take_bit_eq take_bit_eq_mod unat_mod_distrib)
qed

lemma spec_duty_le: "spec_duty n \<le> 255"
  by (simp add: spec_duty_def)

lemma pwmratio_eq:
  fixes t :: "8 word"
  assumes "unat t < 128"
  shows "(if t \<le> 1 then 0 else if t \<ge> 127 then 255 else 2 * t) = of_nat (spec_duty (unat t))"
proof -
  have le1: "t \<le> 1 \<longleftrightarrow> unat t \<le> 1" by (simp add: word_le_nat_alt)
  have ge: "127 \<le> t \<longleftrightarrow> 127 \<le> unat t" by (simp add: word_le_nat_alt)
  have "(2::8 word) * t = of_nat (2 * unat t)" by simp
  then show ?thesis unfolding spec_duty_def le1 ge by simp
qed

lemma inverted_duty: "n \<le> 255 \<Longrightarrow> (255::8 word) - of_nat n = of_nat (255 - n)"
  by simp

lemma setDCSignal_calls:
  "calls (setDCSignal c d) = calls d @
     [analogWrite (powerPin d)
        (of_nat (if invertPower d then 255 - spec_duty (unat c mod 128) else spec_duty (unat c mod 128))),
      setSignal (c AND 0x80 \<noteq> 0)]"
proof -
  have lt: "unat (c AND 0x7F) < 128" by (simp add: and_7F_unat)
  have eq: "(if c AND 0x7F \<le> 1 then 0 else if c AND 0x7F \<ge> 127 then 255 else 2 * (c AND 0x7F))
            = (of_nat (spec_duty (unat c mod 128)) :: 8 word)"
    using pwmratio_eq[OF lt] by (simp only: and_7F_unat)
  have inv: "(255::8 word) - of_nat (spec_duty (unat c mod 128)) = of_nat (255 - spec_duty (unat c mod 128))"
    by (rule inverted_duty) (rule spec_duty_le)
  show ?thesis
    unfolding setDCSignal_def Let_def eq
    by (simp add: call_def inv del: of_nat_diff)
qed

lemma setDCSignal_fields:
  "curSpeedCode (setDCSignal c d) = c" "DCinuse (setDCSignal c d)"
  "powerMode (setDCSignal c d) = powerMode d" "powerPin (setDCSignal c d) = powerPin d"
  "invertPower (setDCSignal c d) = invertPower d" "isProgTrack (setDCSignal c d) = isProgTrack d"
  by (simp_all add: setDCSignal_def call_def Let_def)

lemma setPower_powerMode: "powerMode (setPower mode d) = mode"
  by (simp add: setPower_def Let_def)

lemma setPower_off_calls:
  "mode \<noteq> ON \<Longrightarrow> calls (setPower mode d) =
     calls d @ IODevice_write (powerPin d) (if invertPower d then HIGH else LOW) #
       (if DCinuse d then [analogWrite (powerPin d) (if invertPower d then 255 else 0), setSignal True]
        else [])"
  by (simp add: setPower_def Let_def call_def setDCSignal_def)

lemma setPower_on_calls:
  "calls (setPower ON d) =
     calls d @ IODevice_write (powerPin d) (if invertPower d then LOW else HIGH) #
       (if DCinuse d then
          [analogWrite (powerPin d)
             (of_nat (if invertPower d then 255 - spec_duty (unat (curSpeedCode d) mod 128)
                      else spec_duty (unat (curSpeedCode d) mod 128))),
           setSignal (curSpeedCode d AND 0x80 \<noteq> 0)]
        else []) @
       (if isProgTrack d then [clearResets] else [])"
  by (simp add: setPower_def Let_def calls_call setDCSignal_calls setDCSignal_fields call_def)

lemma setPower_curSpeedCode:
  "DCinuse d \<Longrightarrow> curSpeedCode (setPower mode d) = curSpeedCode d"
  by (simp add: setPower_def Let_def setDCSignal_fields call_def)

section \<open>The duty mapping of setDCSignal\<close>

text \<open>
  Claim C6. \<open>setDCSignal\<close> sends to the PWM backend, on the power pin, the duty of the
  specification for the 7-bit speed field \<open>s\<close> of the speed code (0 for \<open>s \<le> 1\<close>, 255 for
  \<open>s \<ge> 127\<close>, \<open>2 * s\<close> otherwise), and 255 minus that duty when the power pin's polarity is
  inverted. The duty is at most 255, so the byte sent is exactly that number.
\<close>

theorem setDCSignal_duty:
  "calls (setDCSignal c d) = calls d @
     [analogWrite (powerPin d)
        (of_nat (if invertPower d then 255 - spec_duty (unat c mod 128) else spec_duty (unat c mod 128))),
      setSignal (c AND 0x80 \<noteq> 0)] \<and>
   spec_duty (unat c mod 128) \<le> 255 \<and>
   spec_duty (unat c mod 128) =
     (if unat c mod 128 \<le> 1 then 0 else if unat c mod 128 \<ge> 127 then 255 else 2 * (unat c mod 128))"
  using setDCSignal_calls[of c d] spec_duty_le[of "unat c mod 128"]
  by (simp add: spec_duty_def)

theorem setDCSignal_duty_witness:
  "calls (setDCSignal 0x85 main_track) = [analogWrite 3 10, setSignal True] \<and>
   calls (setDCSignal 0x85 (main_track\<lparr>invertPower := True\<rparr>)) = [analogWrite 3 245, setSignal True] \<and>
   calls (setDCSignal 0x7F main_track) = [analogWrite 3 255, setSignal False] \<and>
   calls (setDCSignal 0x01 main_track) = [analogWrite 3 0, setSignal False]"
  using setDCSignal_duty[of "0x85" main_track]
        setDCSignal_duty[of "0x85" "main_track\<lparr>invertPower := True\<rparr>"]
        setDCSignal_duty[of "0x7F" main_track]
        setDCSignal_duty[of "0x01" main_track]
  by (simp add: main_track_def)

section \<open>setPower\<close>

text \<open>
  Claim C7. While \<open>DCinuse\<close> holds, \<open>setPower(ON)\<close> switches the power pin on and then
  re-issues the PWM duty and the direction of the stored speed code \<open>curSpeedCode\<close>;
  \<open>setPower(OFF)\<close> switches the power pin off and commands the stopped output (duty 0, or
  255 on an inverted power pin, which is the same physical level). Both leave
  \<open>curSpeedCode\<close> as it was before the call.
\<close>

theorem setPower_dc_resume_and_stop:
  assumes "DCinuse d"
  shows "calls (setPower ON d) =
           calls d @
             [IODevice_write (powerPin d) (if invertPower d then LOW else HIGH),
              analogWrite (powerPin d)
                (of_nat (if invertPower d then 255 - spec_duty (unat (curSpeedCode d) mod 128)
                         else spec_duty (unat (curSpeedCode d) mod 128))),
              setSignal (curSpeedCode d AND 0x80 \<noteq> 0)] @
             (if isProgTrack d then [clearResets] else []) \<and>
         curSpeedCode (setPower ON d) = curSpeedCode d \<and>
         calls (setPower OFF d) =
           calls d @
             [IODevice_write (powerPin d) (if invertPower d then HIGH else LOW),
              analogWrite (powerPin d) (if invertPower d then 255 else 0),
              setSignal True] \<and>
         curSpeedCode (setPower OFF d) = curSpeedCode d"
  using assms setPower_on_calls[of d] setPower_off_calls[of OFF d]
        setPower_curSpeedCode[of d ON] setPower_curSpeedCode[of d OFF]
  by simp

theorem setPower_dc_resume_and_stop_witness:
  "DCinuse (main_track\<lparr>DCinuse := True, curSpeedCode := 0xB2\<rparr>) \<and>
   calls (setPower ON (main_track\<lparr>DCinuse := True, curSpeedCode := 0xB2\<rparr>)) =
     [IODevice_write 3 HIGH, analogWrite 3 100, setSignal True] \<and>
   curSpeedCode (setPower ON (main_track\<lparr>DCinuse := True, curSpeedCode := 0xB2\<rparr>)) = 0xB2 \<and>
   calls (setPower OFF (main_track\<lparr>DCinuse := True, curSpeedCode := 0xB2\<rparr>)) =
     [IODevice_write 3 LOW, analogWrite 3 0, setSignal True] \<and>
   curSpeedCode (setPower OFF (main_track\<lparr>DCinuse := True, curSpeedCode := 0xB2\<rparr>)) = 0xB2"
  using setPower_dc_resume_and_stop[of "main_track\<lparr>DCinuse := True, curSpeedCode := 0xB2\<rparr>"]
  by (simp add: main_track_def spec_duty_def)

text \<open>
  Claim C10. \<open>setPower(mode)\<close> leaves \<open>powerMode\<close> equal to \<open>mode\<close>. For every mode other than
  \<open>ON\<close>, \<open>OVERLOAD\<close> included, its first backend call writes the power pin's inactive level
  (\<open>LOW\<close>, or \<open>HIGH\<close> on an inverted pin), and the calls it makes are those of \<open>setPower(OFF)\<close>.
\<close>

theorem setPower_mode_and_pin:
  "powerMode (setPower mode d) = mode \<and>
   (mode \<noteq> ON \<longrightarrow>
      calls (setPower mode d) =
        calls d @ IODevice_write (powerPin d) (if invertPower d then HIGH else LOW) #
          (if DCinuse d
           then [analogWrite (powerPin d) (if invertPower d then 255 else 0), setSignal True]
           else []) \<and>
      calls (setPower mode d) = calls (setPower OFF d))"
  using setPower_powerMode[of mode d] setPower_off_calls[of mode d] setPower_off_calls[of OFF d]
  by simp

theorem setPower_mode_and_pin_witness:
  "OVERLOAD \<noteq> ON \<and>
   powerMode (setPower OVERLOAD (main_track\<lparr>invertPower := True\<rparr>)) = OVERLOAD \<and>
   calls (setPower OVERLOAD (main_track\<lparr>invertPower := True\<rparr>)) = [IODevice_write 3 HIGH] \<and>
   calls (setPower OVERLOAD (main_track\<lparr>invertPower := True\<rparr>)) =
     calls (setPower OFF (main_track\<lparr>invertPower := True\<rparr>))"
  using setPower_mode_and_pin[of OVERLOAD "main_track\<lparr>invertPower := True\<rparr>"]
  by (simp add: main_track_def setPower_def call_def Let_def)


section \<open>The current-read contract\<close>

lemma getCurrentRaw_unused: "uint (currentPin d) = UNUSED_PIN K \<Longrightarrow> getCurrentRaw K e d = 0"
  by (simp add: getCurrentRaw_def)

lemma getCurrentRaw_sint:
  fixes d :: "'w::len motor_driver"
  assumes pin: "uint (currentPin d) \<noteq> UNUSED_PIN K"
      and rng: "\<bar>sint (adc e) - sint (senseOffset d)\<bar> < 2 ^ (LENGTH('w) - 1)"
  shows "sint (getCurrentRaw K e d) =
     (let magnitude = \<bar>sint (adc e) - sint (senseOffset d)\<bar>
      in if uint (faultPin d) \<noteq> UNUSED_PIN K \<and> fault_low e \<and> powerMode d = ON
         then (if magnitude = 0 then - 1 else - magnitude) else magnitude)"
proof -
  define x where "x = adc e - senseOffset d"
  define c where "c = (if x <s 0 then 0 - x else x)"
  have sx: "sint x = sint (adc e) - sint (senseOffset d)"
    unfolding x_def using rng
    by (simp add: sint_word_ariths signed_take_bit_int_eq_self)
  have sc: "sint c = \<bar>sint (adc e) - sint (senseOffset d)\<bar>"
    unfolding c_def using rng sx
    by (simp add: word_sless_alt sint_word_ariths signed_take_bit_int_eq_self)
  have c0: "c = 0 \<longleftrightarrow> sint c = 0" by (simp add: signed_eq_0_iff)
  have sm: "sint (- c) = - sint c"
    using rng sc by (simp add: sint_word_ariths signed_take_bit_int_eq_self)
  show ?thesis
    using pin sc sm c0 unfolding getCurrentRaw_def Let_def x_def[symmetric] c_def[symmetric]
    by simp
qed

text \<open>
  Claim C3. \<open>getCurrentRaw\<close> returns 0 when no current-sense pin is configured, whatever
  the fault pin and the power mode are. Otherwise, with \<open>magnitude\<close> the absolute value of
  the ADC sample minus \<open>senseOffset\<close> (representable in an \<open>int\<close>, so that the subtraction
  and the negations of the source do not overflow), it returns \<open>magnitude\<close>, except that
  with a fault pin configured and reading active while the power mode is \<open>ON\<close> it returns
  \<open>- magnitude\<close>, and \<open>-1\<close> when \<open>magnitude\<close> is 0.
\<close>

theorem getCurrentRaw_contract:
  fixes d :: "'w::len motor_driver"
  shows "(uint (currentPin d) = UNUSED_PIN K \<longrightarrow> getCurrentRaw K e d = 0) \<and>
         (uint (currentPin d) \<noteq> UNUSED_PIN K \<and>
          \<bar>sint (adc e) - sint (senseOffset d)\<bar> < 2 ^ (LENGTH('w) - 1) \<longrightarrow>
            sint (getCurrentRaw K e d) =
              (let magnitude = \<bar>sint (adc e) - sint (senseOffset d)\<bar>
               in if uint (faultPin d) \<noteq> UNUSED_PIN K \<and> fault_low e \<and> powerMode d = ON
                  then (if magnitude = 0 then - 1 else - magnitude) else magnitude))"
  using getCurrentRaw_unused[of d K e] getCurrentRaw_sint[of d K e] by blast

theorem getCurrentRaw_contract_witness:
  "uint (currentPin (main_track\<lparr>currentPin := 127, faultPin := 4\<rparr>)) = UNUSED_PIN stock_constants \<and>
   getCurrentRaw stock_constants (reading 0 600 True) (main_track\<lparr>currentPin := 127, faultPin := 4\<rparr>) = 0 \<and>
   uint (currentPin (main_track\<lparr>senseOffset := 512, faultPin := 4\<rparr>)) \<noteq> UNUSED_PIN stock_constants \<and>
   \<bar>sint (adc (reading 0 500 True :: 16 readings)) -
      sint (senseOffset (main_track\<lparr>senseOffset := 512, faultPin := 4\<rparr>))\<bar> < 2 ^ (LENGTH(16) - 1) \<and>
   sint (getCurrentRaw stock_constants (reading 0 500 True) (main_track\<lparr>senseOffset := 512, faultPin := 4\<rparr>)) = - 12 \<and>
   sint (getCurrentRaw stock_constants (reading 0 512 True) (main_track\<lparr>senseOffset := 512, faultPin := 4\<rparr>)) = - 1 \<and>
   sint (getCurrentRaw stock_constants (reading 0 500 False) (main_track\<lparr>senseOffset := 512, faultPin := 4\<rparr>)) = 12"
  using getCurrentRaw_contract[of "main_track\<lparr>currentPin := 127, faultPin := 4\<rparr>" stock_constants "reading 0 600 True"]
        getCurrentRaw_contract[of "main_track\<lparr>senseOffset := 512, faultPin := 4\<rparr>" stock_constants "reading 0 500 True"]
        getCurrentRaw_contract[of "main_track\<lparr>senseOffset := 512, faultPin := 4\<rparr>" stock_constants "reading 0 512 True"]
        getCurrentRaw_contract[of "main_track\<lparr>senseOffset := 512, faultPin := 4\<rparr>" stock_constants "reading 0 500 False"]
  by (simp add: main_track_def stock_constants_def reading_def)

section \<open>Single checks\<close>

lemma check_rate_limited:
  "\<not> effective e d \<Longrightarrow> checkPowerOverload K cfp upl tn e d = d"
  by (simp add: checkPowerOverload_def effective_def)

lemma check_overload:
  assumes "powerMode d = OVERLOAD" and "effective e d"
  shows "checkPowerOverload K cfp upl tn e d =
           call (DIAG (PowerRestore tn (POWER_SAMPLE_ON_WAIT K)))
             ((setPower ON (d\<lparr>lastSampleTaken := millis2 e\<rparr>))\<lparr>sampleDelay := POWER_SAMPLE_ON_WAIT K\<rparr>)"
  using assms by (simp add: checkPowerOverload_def effective_def Let_def)

lemma setPower_keeps:
  "sampleDelay (setPower m d) = sampleDelay d"
  "lastSampleTaken (setPower m d) = lastSampleTaken d"
  "lastCurrent (setPower m d) = lastCurrent d"
  "power_sample_overload_wait (setPower m d) = power_sample_overload_wait d"
  "power_good_counter (setPower m d) = power_good_counter d"
  "rawCurrentTripValue (setPower m d) = rawCurrentTripValue d"
  "progTripValue (setPower m d) = progTripValue d"
  "senseOffset (setPower m d) = senseOffset d"
  "senseFactorInternal (setPower m d) = senseFactorInternal d"
  "currentPin (setPower m d) = currentPin d"
  "faultPin (setPower m d) = faultPin d"
  by (simp_all add: setPower_def Let_def call_def setDCSignal_def)

text \<open>
  Claim C9. From power mode \<open>OVERLOAD\<close>, a check that the rate limit lets through always
  ends with the power mode \<open>ON\<close> and \<open>sampleDelay\<close> equal to \<open>POWER_SAMPLE_ON_WAIT\<close>, whatever
  the readings are: \<open>OVERLOAD\<close> does not survive an effective check.
\<close>

theorem overload_restored_on_next_check:
  assumes "powerMode d = OVERLOAD" and "effective e d"
  shows "powerMode (checkPowerOverload K cfp upl tn e d) = ON \<and>
         sampleDelay (checkPowerOverload K cfp upl tn e d) = POWER_SAMPLE_ON_WAIT K \<and>
         powerMode (checkPowerOverload K cfp upl tn e d) \<noteq> OVERLOAD"
  using check_overload[OF assms, of K cfp upl tn]
  by (simp add: call_def setPower_powerMode)

theorem overload_restored_on_next_check_witness:
  "powerMode (main_track\<lparr>powerMode := OVERLOAD, sampleDelay := 20, lastSampleTaken := 1000\<rparr>) = OVERLOAD \<and>
   effective (reading 1020 700 False)
     (main_track\<lparr>powerMode := OVERLOAD, sampleDelay := 20, lastSampleTaken := 1000\<rparr>) \<and>
   powerMode (checkPowerOverload stock_constants False False 0 (reading 1020 700 False)
     (main_track\<lparr>powerMode := OVERLOAD, sampleDelay := 20, lastSampleTaken := 1000\<rparr>)) = ON \<and>
   sampleDelay (checkPowerOverload stock_constants False False 0 (reading 1020 700 False)
     (main_track\<lparr>powerMode := OVERLOAD, sampleDelay := 20, lastSampleTaken := 1000\<rparr>)) = 100"
proof -
  have m: "powerMode (main_track\<lparr>powerMode := OVERLOAD, sampleDelay := 20, lastSampleTaken := 1000\<rparr>) = OVERLOAD"
    by simp
  have e: "effective (reading 1020 700 False)
     (main_track\<lparr>powerMode := OVERLOAD, sampleDelay := 20, lastSampleTaken := 1000\<rparr>)"
    by (simp add: effective_def reading_def main_track_def)
  show ?thesis
    using m e overload_restored_on_next_check[OF m e, of stock_constants False False 0]
    by (simp add: stock_constants_def)
qed


section \<open>Construction: the trip threshold\<close>

lemma sint_eq_uint_small:
  fixes w :: "'w::len word"
  assumes "uint w < 2 ^ (LENGTH('w) - 1)"
  shows "sint w = uint w"
proof -
  have "0 \<le> uint w" by simp
  moreover have "(0::int) \<le> 2 ^ (LENGTH('w) - 1)" by simp
  ultimately have "- (2 ^ (LENGTH('w) - 1)) \<le> uint w" by linarith
  then have "signed_take_bit (LENGTH('w) - 1) (uint w) = uint w"
    using assms by (rule signed_take_bit_int_eq_self)
  then show ?thesis by (simp add: sint_uint)
qed





section \<open>Single checks with power on\<close>

lemma getCurrentRaw_lastSampleTaken:
  "getCurrentRaw K e (d\<lparr>lastSampleTaken := t\<rparr>) = getCurrentRaw K e d"
  by (simp add: getCurrentRaw_def)

lemma check_healthy:
  assumes "healthy_check K upl e d"
  shows "checkPowerOverload K cfp upl tn e d =
     (let d6 = d\<lparr>lastSampleTaken := millis2 e, lastCurrent := getCurrentRaw K e d,
                 sampleDelay := POWER_SAMPLE_ON_WAIT K\<rparr>
      in if power_good_counter d < 100 then d6\<lparr>power_good_counter := power_good_counter d + 1\<rparr>
         else if POWER_SAMPLE_OVERLOAD_WAIT K < power_sample_overload_wait d
              then d6\<lparr>power_sample_overload_wait := POWER_SAMPLE_OVERLOAD_WAIT K\<rparr> else d6)"
  using assms
  by (cases upl) (simp_all add: checkPowerOverload_def healthy_check_def effective_def trip_threshold_def
        getRawCurrentTripValue_def getCurrentRaw_lastSampleTaken Let_def)

lemma check_trip:
  assumes "tripping_check K upl e d"
  shows "powerMode (checkPowerOverload K cfp upl tn e d) = OVERLOAD \<and>
         sampleDelay (checkPowerOverload K cfp upl tn e d) = power_sample_overload_wait d \<and>
         power_sample_overload_wait (checkPowerOverload K cfp upl tn e d) =
           (if 10000 \<le> power_sample_overload_wait d then 10000 else power_sample_overload_wait d * 2) \<and>
         power_good_counter (checkPowerOverload K cfp upl tn e d) = 0 \<and>
         lastSampleTaken (checkPowerOverload K cfp upl tn e d) = millis2 e"
proof (cases "getCurrentRaw K e d <s 0")
  case True
  with assms show ?thesis
    by (cases upl; cases cfp)
       (simp_all add: checkPowerOverload_def tripping_check_def measured_def effective_def trip_threshold_def
        getRawCurrentTripValue_def getCurrentRaw_lastSampleTaken Let_def setPower_keeps setPower_powerMode
        call_def)
next
  case False
  with assms show ?thesis
    by (cases upl)
       (simp_all add: checkPowerOverload_def tripping_check_def measured_def effective_def trip_threshold_def
        getRawCurrentTripValue_def getCurrentRaw_lastSampleTaken Let_def setPower_keeps setPower_powerMode
        call_def)
qed

lemma raw2mA_cong: "senseFactorInternal d = senseFactorInternal d' \<Longrightarrow> raw2mA K d x = raw2mA K d' x"
  by (simp add: raw2mA_def)

lemma raw2mA_setPower [simp]: "raw2mA K (setPower m d) x = raw2mA K d x"
  by (rule raw2mA_cong) (simp add: setPower_keeps)

lemma raw2mA_upd [simp]:
  "raw2mA K (d\<lparr>lastSampleTaken := t\<rparr>) x = raw2mA K d x"
  "raw2mA K (d\<lparr>lastCurrent := c\<rparr>) x = raw2mA K d x"
  "raw2mA K (d\<lparr>calls := cs\<rparr>) x = raw2mA K d x"
  by (simp_all add: raw2mA_def)

lemma fault_reading:
  fixes d :: "'w::len motor_driver"
  assumes pin: "uint (currentPin d) \<noteq> UNUSED_PIN K"
      and fp: "uint (faultPin d) \<noteq> UNUSED_PIN K"
      and fl: "fault_low e"
      and on: "powerMode d = ON"
      and rng1: "max 1 \<bar>sint (adc e) - sint (senseOffset d)\<bar> < 2 ^ (LENGTH('w) - 1)"
  shows "getCurrentRaw K e d <s 0"
    and "sint (- getCurrentRaw K e d) = max 1 \<bar>sint (adc e) - sint (senseOffset d)\<bar>"
proof -
  have rng: "\<bar>sint (adc e) - sint (senseOffset d)\<bar> < 2 ^ (LENGTH('w) - 1)"
    using rng1 by simp
  have one: "(1::int) < 2 ^ (LENGTH('w) - 1)"
    using rng1 by simp
  have r: "sint (getCurrentRaw K e d) =
             (if \<bar>sint (adc e) - sint (senseOffset d)\<bar> = 0 then - 1
              else - \<bar>sint (adc e) - sint (senseOffset d)\<bar>)"
    using getCurrentRaw_sint[OF pin rng] fp fl on by (simp add: Let_def)
  then show "getCurrentRaw K e d <s 0"
    by (simp add: word_sless_alt split: if_splits)
  have "- (2 ^ (LENGTH('w) - 1)) \<le> - sint (getCurrentRaw K e d)"
       "- sint (getCurrentRaw K e d) < 2 ^ (LENGTH('w) - 1)"
    using r rng one by (auto split: if_splits)
  then have "sint (- getCurrentRaw K e d) = - sint (getCurrentRaw K e d)"
    by (simp add: sint_word_ariths signed_take_bit_int_eq_self)
  then show "sint (- getCurrentRaw K e d) = max 1 \<bar>sint (adc e) - sint (senseOffset d)\<bar>"
    using r by (simp split: if_splits)
qed

lemma check_fault_common:
  assumes "effective e d" "powerMode d = ON" "getCurrentRaw K e d <s 0"
      and "- getCurrentRaw K e d <s trip_threshold upl d"
  shows "powerMode (checkPowerOverload K True upl tn e d) = ON"
  using assms
  by (cases upl)
     (simp_all add: checkPowerOverload_def effective_def trip_threshold_def
        getRawCurrentTripValue_def getCurrentRaw_lastSampleTaken Let_def setPower_keeps setPower_powerMode
        call_def)

lemma check_fault_dedicated:
  assumes "effective e d" "powerMode d = ON" "getCurrentRaw K e d <s 0"
      and "\<not> - getCurrentRaw K e d <s trip_threshold upl d \<Longrightarrow> - getCurrentRaw K e d = trip_threshold upl d"
  shows "powerMode (checkPowerOverload K False upl tn e d) = OVERLOAD \<and>
         lastCurrent (checkPowerOverload K False upl tn e d) = trip_threshold upl d \<and>
         last (calls (checkPowerOverload K False upl tn e d)) =
           DIAG (PowerOverload tn (raw2mA K d (trip_threshold upl d)) (raw2mA K d (trip_threshold upl d))
                   (power_sample_overload_wait d))"
proof (cases "- getCurrentRaw K e d <s trip_threshold upl d")
  case True
  with assms(1-3) show ?thesis
    by (cases upl)
     (simp_all add: checkPowerOverload_def effective_def trip_threshold_def
        getRawCurrentTripValue_def getCurrentRaw_lastSampleTaken Let_def setPower_keeps setPower_powerMode
        call_def)
next
  case False
  with assms(1-3) assms(4)[OF False] show ?thesis
    by (cases upl)
     (simp_all add: checkPowerOverload_def effective_def trip_threshold_def
        getRawCurrentTripValue_def getCurrentRaw_lastSampleTaken Let_def setPower_keeps setPower_powerMode
        call_def)
qed

section \<open>Fault pin handling\<close>

text \<open>
  Claim C2, as the specification states it, fails in two ways, both shown after the
  theorem on concrete inputs. Without a current-sense pin \<open>getCurrentRaw\<close> returns 0
  before it looks at the fault pin, so an active fault pin is never seen and the power
  stays \<open>ON\<close> even with a dedicated fault pin. And a magnitude of 0 is reported as \<open>-1\<close>, so it
  counts as 1: with a threshold of 1 a shared fault pin does not switch the power on again.

  Claim C2, amended. In an effective check with power mode \<open>ON\<close>, a current-sense pin
  configured, the fault pin configured and active, and the magnitude below the trip
  threshold: with \<open>commonFaultPin\<close> true the power mode is \<open>ON\<close> on return provided the
  magnitude, counted as 1 when it is 0, is below the threshold; with \<open>commonFaultPin\<close> false
  the power mode is \<open>OVERLOAD\<close> on return, \<open>lastCurrent\<close> equals the trip threshold, and the
  overload message logs the milliamp value of the threshold as the measured current.
\<close>

theorem fault_pin_check:
  fixes d :: "'w::len motor_driver"
  assumes pin: "uint (currentPin d) \<noteq> UNUSED_PIN K"
      and fp: "uint (faultPin d) \<noteq> UNUSED_PIN K"
      and fl: "fault_low e"
      and on: "powerMode d = ON"
      and eff: "effective e d"
      and below: "\<bar>sint (adc e) - sint (senseOffset d)\<bar> < sint (trip_threshold upl d)"
  shows "(max 1 \<bar>sint (adc e) - sint (senseOffset d)\<bar> < sint (trip_threshold upl d) \<longrightarrow>
            powerMode (checkPowerOverload K True upl tn e d) = ON) \<and>
         powerMode (checkPowerOverload K False upl tn e d) = OVERLOAD \<and>
         lastCurrent (checkPowerOverload K False upl tn e d) = trip_threshold upl d \<and>
         last (calls (checkPowerOverload K False upl tn e d)) =
           DIAG (PowerOverload tn (raw2mA K d (trip_threshold upl d)) (raw2mA K d (trip_threshold upl d))
                   (power_sample_overload_wait d))"
proof -
  have T: "sint (trip_threshold upl d) < 2 ^ (LENGTH('w) - 1)"
    by (rule sint_lt)
  have rng1: "max 1 \<bar>sint (adc e) - sint (senseOffset d)\<bar> < 2 ^ (LENGTH('w) - 1)"
    using below T by simp
  note fr = fault_reading[OF pin fp fl on rng1]
  have common: "powerMode (checkPowerOverload K True upl tn e d) = ON"
    if "max 1 \<bar>sint (adc e) - sint (senseOffset d)\<bar> < sint (trip_threshold upl d)"
    using that fr(2) by (intro check_fault_common[OF eff on fr(1)]) (simp add: word_sless_alt)
  have eq: "- getCurrentRaw K e d = trip_threshold upl d"
    if "\<not> - getCurrentRaw K e d <s trip_threshold upl d"
  proof -
    have "sint (- getCurrentRaw K e d) = sint (trip_threshold upl d)"
      using that fr(2) below by (simp add: word_sless_alt)
    then show ?thesis by (rule signed_word_eqI)
  qed
  show ?thesis
    using common check_fault_dedicated[OF eff on fr(1) eq, of tn] by blast
qed

theorem fault_pin_check_counterexample:
  "powerMode (main_track\<lparr>currentPin := 127, faultPin := 4\<rparr>) = ON \<and>
   uint (faultPin (main_track\<lparr>currentPin := 127, faultPin := 4\<rparr>)) \<noteq> UNUSED_PIN stock_constants \<and>
   fault_low (reading 1000 0 True :: 16 readings) \<and>
   effective (reading 1000 0 True) (main_track\<lparr>currentPin := 127, faultPin := 4\<rparr>) \<and>
   \<bar>sint (adc (reading 1000 0 True :: 16 readings)) -
      sint (senseOffset (main_track\<lparr>currentPin := 127, faultPin := 4\<rparr>))\<bar>
     < sint (trip_threshold False (main_track\<lparr>currentPin := 127, faultPin := 4\<rparr>)) \<and>
   powerMode (checkPowerOverload stock_constants False False 0 (reading 1000 0 True)
                (main_track\<lparr>currentPin := 127, faultPin := 4\<rparr>)) = ON \<and>
   powerMode (main_track\<lparr>faultPin := 4, tripMilliamps := 5, rawCurrentTripValue := 1\<rparr>) = ON \<and>
   uint (currentPin (main_track\<lparr>faultPin := 4, tripMilliamps := 5, rawCurrentTripValue := 1\<rparr>))
     \<noteq> UNUSED_PIN stock_constants \<and>
   uint (faultPin (main_track\<lparr>faultPin := 4, tripMilliamps := 5, rawCurrentTripValue := 1\<rparr>))
     \<noteq> UNUSED_PIN stock_constants \<and>
   effective (reading 1000 0 True) (main_track\<lparr>faultPin := 4, tripMilliamps := 5, rawCurrentTripValue := 1\<rparr>) \<and>
   \<bar>sint (adc (reading 1000 0 True :: 16 readings)) -
      sint (senseOffset (main_track\<lparr>faultPin := 4, tripMilliamps := 5, rawCurrentTripValue := 1\<rparr>))\<bar>
     < sint (trip_threshold False (main_track\<lparr>faultPin := 4, tripMilliamps := 5, rawCurrentTripValue := 1\<rparr>)) \<and>
   powerMode (checkPowerOverload stock_constants True False 0 (reading 1000 0 True)
                (main_track\<lparr>faultPin := 4, tripMilliamps := 5, rawCurrentTripValue := 1\<rparr>)) = OVERLOAD"
  by (simp add: main_track_def stock_constants_def reading_def effective_def trip_threshold_def
        getRawCurrentTripValue_def checkPowerOverload_def getCurrentRaw_def Let_def word_sless_alt
        setPower_def call_def)

theorem fault_pin_check_witness:
  "uint (currentPin (main_track\<lparr>faultPin := 4\<rparr>)) \<noteq> UNUSED_PIN stock_constants \<and>
   uint (faultPin (main_track\<lparr>faultPin := 4\<rparr>)) \<noteq> UNUSED_PIN stock_constants \<and>
   fault_low (reading 1000 300 True :: 16 readings) \<and>
   powerMode (main_track\<lparr>faultPin := 4\<rparr>) = ON \<and>
   effective (reading 1000 300 True) (main_track\<lparr>faultPin := 4\<rparr>) \<and>
   \<bar>sint (adc (reading 1000 300 True :: 16 readings)) - sint (senseOffset (main_track\<lparr>faultPin := 4\<rparr>))\<bar>
     < sint (trip_threshold False (main_track\<lparr>faultPin := 4\<rparr>)) \<and>
   max 1 \<bar>sint (adc (reading 1000 300 True :: 16 readings)) - sint (senseOffset (main_track\<lparr>faultPin := 4\<rparr>))\<bar>
     < sint (trip_threshold False (main_track\<lparr>faultPin := 4\<rparr>)) \<and>
   powerMode (checkPowerOverload stock_constants True False 0 (reading 1000 300 True)
                (main_track\<lparr>faultPin := 4\<rparr>)) = ON \<and>
   powerMode (checkPowerOverload stock_constants False False 0 (reading 1000 300 True)
                (main_track\<lparr>faultPin := 4\<rparr>)) = OVERLOAD \<and>
   lastCurrent (checkPowerOverload stock_constants False False 0 (reading 1000 300 True)
                (main_track\<lparr>faultPin := 4\<rparr>)) = 669"
proof -
  have h: "uint (currentPin (main_track\<lparr>faultPin := 4\<rparr>)) \<noteq> UNUSED_PIN stock_constants"
          "uint (faultPin (main_track\<lparr>faultPin := 4\<rparr>)) \<noteq> UNUSED_PIN stock_constants"
          "fault_low (reading 1000 300 True :: 16 readings)"
          "powerMode (main_track\<lparr>faultPin := 4\<rparr>) = ON"
          "effective (reading 1000 300 True) (main_track\<lparr>faultPin := 4\<rparr>)"
          "\<bar>sint (adc (reading 1000 300 True :: 16 readings)) - sint (senseOffset (main_track\<lparr>faultPin := 4\<rparr>))\<bar>
             < sint (trip_threshold False (main_track\<lparr>faultPin := 4\<rparr>))"
    by (simp_all add: main_track_def stock_constants_def reading_def effective_def trip_threshold_def
          getRawCurrentTripValue_def)
  have t: "trip_threshold False (main_track\<lparr>faultPin := 4\<rparr>) = 669"
    by (simp add: trip_threshold_def getRawCurrentTripValue_def main_track_def)
  have m: "max 1 \<bar>sint (adc (reading 1000 300 True :: 16 readings)) - sint (senseOffset (main_track\<lparr>faultPin := 4\<rparr>))\<bar>
             < sint (trip_threshold False (main_track\<lparr>faultPin := 4\<rparr>))"
    by (simp add: t) (simp add: main_track_def reading_def)
  show ?thesis
    using h m fault_pin_check[OF h, of 0] unfolding t by simp
qed


section \<open>The round trip through raw2mA and mA2raw\<close>

lemma sdiv_nonneg: "0 \<le> (k::int) \<Longrightarrow> 0 < l \<Longrightarrow> k sdiv l = k div l"
  by (simp add: signed_divide_int_def sgn_if)

lemma div_le_self_int: "0 \<le> (a::int) \<Longrightarrow> 0 < b \<Longrightarrow> a div b \<le> a"
  by (metis div_by_1 int_one_le_iff_zero_less zdiv_mono2 zero_less_one)

lemma sint_scast_up:
  fixes w :: "'w::len word"
  assumes "LENGTH('w) \<le> 32"
  shows "sint (scast w :: 32 word) = sint w"
  using assms by (simp add: sint_up_scast is_up)

lemma uint_ucast_up:
  fixes w :: "'w::len word"
  assumes "LENGTH('w) \<le> 32"
  shows "uint (ucast w :: 32 word) = uint w"
  using assms by (simp add: uint_up_ucast is_up)

lemma uint_eq_sint:
  fixes q :: "'a::len word"
  assumes "0 \<le> sint q"
  shows "uint q = sint q"
proof -
  have "(2::int) ^ (LENGTH('a) - 1) \<le> 2 ^ LENGTH('a)"
    by (rule power_increasing) simp_all
  then have "sint q < 2 ^ LENGTH('a)"
    using sint_lt[of q] by linarith
  then have "take_bit LENGTH('a) (sint q) = sint q"
    using assms by (simp add: take_bit_int_eq_self)
  then show ?thesis by (simp add: uint_sint)
qed

lemma sint_of_small:
  fixes w :: "32 word"
  assumes "uint w < 2 ^ 31"
  shows "sint w = uint w"
proof -
  have "0 \<le> uint w" by simp
  moreover have "(0::int) \<le> 2 ^ 31" by simp
  ultimately have "- (2 ^ 31) \<le> uint w" by linarith
  then have "signed_take_bit 31 (uint w) = uint w"
    using assms by (rule signed_take_bit_int_eq_self)
  then show ?thesis by (simp add: sint_uint)
qed

lemma sint_mult32:
  fixes a b :: "32 word"
  assumes "0 \<le> sint a * sint b" "sint a * sint b < 2 ^ 31"
  shows "sint (a * b) = sint a * sint b"
proof -
  have "signed_take_bit 31 (sint a * sint b) = sint a * sint b"
    by (rule signed_take_bit_int_eq_self) (use assms in simp_all)
  then show ?thesis by (simp add: sint_word_ariths)
qed

lemma sint_sdiv32:
  assumes "0 \<le> sint a" "0 < sint b"
  shows "sint (sdiv32 a b) = sint a div sint b"
proof -
  have le: "sint a div sint b \<le> sint a"
    using assms by (rule div_le_self_int)
  have "sint a < 2 ^ 31" using sint_lt[of a] by simp
  with le have lt: "sint a div sint b < 2 ^ 31" by linarith
  have ge: "0 \<le> sint a div sint b" using assms by (simp add: pos_imp_zdiv_nonneg_iff)
  have "signed_take_bit 31 (sint a div sint b) = sint a div sint b"
    by (rule signed_take_bit_int_eq_self) (use ge lt in simp_all)
  then show ?thesis
    using assms by (simp add: sdiv32_def sdiv_nonneg sint_sbintrunc')
qed

lemma uint_ucast_down:
  fixes q :: "32 word"
  assumes "0 \<le> sint q" "sint q < 2 ^ LENGTH('w)"
  shows "uint (ucast q :: 'w::len word) = sint q"
proof -
  have "uint q = sint q" using assms(1) by (rule uint_eq_sint)
  then show ?thesis
    using assms by (simp add: unsigned_ucast_eq take_bit_int_eq_self)
qed

lemma mA2raw_value:
  fixes d :: "'w::len motor_driver"
  assumes len: "LENGTH('w) \<le> 32"
      and f: "0 < sint (senseFactorInternal d)"
      and S: "0 < sint (senseScale K)"
      and prod: "uint x * sint (senseScale K) < 2 ^ 31"
      and fits: "uint x * sint (senseScale K) div sint (senseFactorInternal d) < 2 ^ LENGTH('w)"
  shows "uint (mA2raw K d x) = uint x * sint (senseScale K) div sint (senseFactorInternal d)"
proof -
  have x31: "uint x < 2 ^ 31"
  proof -
    have "uint x * 1 \<le> uint x * sint (senseScale K)"
      using S by (intro mult_left_mono) simp_all
    with prod show ?thesis by simp
  qed
  have sx: "sint (ucast x :: 32 word) = uint x"
    using x31 by (simp add: sint_of_small uint_ucast_up[OF len])
  have sS: "sint (scast (senseScale K) :: 32 word) = sint (senseScale K)"
    by (rule sint_scast_up[OF len])
  have sf: "sint (scast (senseFactorInternal d) :: 32 word) = sint (senseFactorInternal d)"
    by (rule sint_scast_up[OF len])
  have p0: "0 \<le> uint x * sint (senseScale K)" using S by simp
  have sp: "sint ((ucast x :: 32 word) * scast (senseScale K)) = uint x * sint (senseScale K)"
    using sint_mult32[of "ucast x" "scast (senseScale K)"] p0 prod by (simp add: sx sS)
  have sq: "sint (sdiv32 ((ucast x :: 32 word) * scast (senseScale K)) (scast (senseFactorInternal d))) =
              uint x * sint (senseScale K) div sint (senseFactorInternal d)"
    using sint_sdiv32[of "(ucast x :: 32 word) * scast (senseScale K)" "scast (senseFactorInternal d)"]
          p0 f by (simp add: sp sf)
  have q0: "0 \<le> uint x * sint (senseScale K) div sint (senseFactorInternal d)"
    using p0 f by (simp add: pos_imp_zdiv_nonneg_iff)
  show ?thesis
    unfolding mA2raw_def
    using uint_ucast_down[where 'w='w, of "sdiv32 ((ucast x :: 32 word) * scast (senseScale K)) (scast (senseFactorInternal d))"]
          q0 fits by (simp add: sq)
qed

lemma raw2mA_value:
  fixes d :: "'w::len motor_driver"
  assumes len: "LENGTH('w) \<le> 32"
      and f: "0 < sint (senseFactorInternal d)"
      and S: "0 < sint (senseScale K)"
      and r: "0 \<le> sint raw"
      and prod: "sint raw * sint (senseFactorInternal d) < 2 ^ 31"
      and fits: "sint raw * sint (senseFactorInternal d) div sint (senseScale K) < 2 ^ LENGTH('w)"
  shows "uint (raw2mA K d raw) = sint raw * sint (senseFactorInternal d) div sint (senseScale K)"
proof -
  have sr: "sint (scast raw :: 32 word) = sint raw"
    by (rule sint_scast_up[OF len])
  have sS: "sint (scast (senseScale K) :: 32 word) = sint (senseScale K)"
    by (rule sint_scast_up[OF len])
  have sf: "sint (scast (senseFactorInternal d) :: 32 word) = sint (senseFactorInternal d)"
    by (rule sint_scast_up[OF len])
  have p0: "0 \<le> sint raw * sint (senseFactorInternal d)" using r f by simp
  have sp: "sint ((scast raw :: 32 word) * scast (senseFactorInternal d)) = sint raw * sint (senseFactorInternal d)"
    using sint_mult32[of "scast raw" "scast (senseFactorInternal d)"] p0 prod by (simp add: sr sf)
  have sq: "sint (sdiv32 ((scast raw :: 32 word) * scast (senseFactorInternal d)) (scast (senseScale K))) =
              sint raw * sint (senseFactorInternal d) div sint (senseScale K)"
    using sint_sdiv32[of "(scast raw :: 32 word) * scast (senseFactorInternal d)" "scast (senseScale K)"]
          p0 S by (simp add: sp sS)
  have q0: "0 \<le> sint raw * sint (senseFactorInternal d) div sint (senseScale K)"
    using p0 S by (simp add: pos_imp_zdiv_nonneg_iff)
  show ?thesis
    unfolding raw2mA_def
    using uint_ucast_down[where 'w='w, of "sdiv32 ((scast raw :: 32 word) * scast (senseFactorInternal d)) (scast (senseScale K))"]
          q0 fits by (simp add: sq)
qed

lemma div_bounds: 
  fixes a b :: int
  assumes "0 < b"
  shows "b * (a div b) \<le> a" "a < b * (a div b) + b"
proof -
  have "a = b * (a div b) + a mod b" by simp
  moreover have "0 \<le> a mod b" "a mod b < b" using assms by simp_all
  ultimately show "b * (a div b) \<le> a" "a < b * (a div b) + b" by linarith+
qed

lemma round_trip_int:
  fixes X S F :: int
  assumes "0 \<le> X" "0 < S" "0 < F"
  defines "Q \<equiv> X * S div F"
  defines "Y \<equiv> Q * F div S"
  shows "0 \<le> Q" "Q * F \<le> X * S" "0 \<le> Y" "Y \<le> X" "(X - Y) * S < F + S"
proof -
  show q0: "0 \<le> Q" using assms by (simp add: pos_imp_zdiv_nonneg_iff)
  have q1: "F * Q \<le> X * S" and q2: "X * S < F * Q + F"
    unfolding Q_def using div_bounds[of F "X * S"] assms by simp_all
  show "Q * F \<le> X * S" using q1 by (simp add: mult.commute)
  have y1: "S * Y \<le> Q * F" and y2: "Q * F < S * Y + S"
    unfolding Y_def using div_bounds[of S "Q * F"] assms by simp_all
  show "0 \<le> Y" unfolding Y_def using q0 assms by (simp add: pos_imp_zdiv_nonneg_iff)
  have "S * Y \<le> S * X" using y1 q1 by (simp add: mult.commute)
  then show "Y \<le> X" using assms by simp
  have "X * S < S * Y + S + F" using q2 y2 by (simp add: mult.commute)
  then show "(X - Y) * S < F + S" by (simp add: algebra_simps)
qed

lemma round_trip_value:
  fixes d :: "'w::len motor_driver"
  assumes len: "LENGTH('w) \<le> 32"
      and f: "0 < sint (senseFactorInternal d)"
      and S: "0 < sint (senseScale K)"
      and prod: "uint x * sint (senseScale K) < 2 ^ 31"
      and fits: "uint x * sint (senseScale K) div sint (senseFactorInternal d) < 2 ^ (LENGTH('w) - 1)"
  shows "uint (raw2mA K d (mA2raw K d x)) =
           (uint x * sint (senseScale K) div sint (senseFactorInternal d)) *
             sint (senseFactorInternal d) div sint (senseScale K)"
proof -
  define X where "X = uint x"
  define Sv where "Sv = sint (senseScale K)"
  define F where "F = sint (senseFactorInternal d)"
  have X0: "0 \<le> X" by (simp add: X_def)
  note rt = round_trip_int[OF X0 S[folded Sv_def] f[folded F_def]]
  have half: "(2::int) ^ (LENGTH('w) - 1) \<le> 2 ^ LENGTH('w)"
    by (rule power_increasing) simp_all
  have fits': "X * Sv div F < 2 ^ LENGTH('w)"
    using fits half unfolding X_def Sv_def F_def by linarith
  have m: "uint (mA2raw K d x) = X * Sv div F"
    unfolding X_def Sv_def F_def
    by (rule mA2raw_value[OF len f S prod fits'[unfolded X_def Sv_def F_def]])
  have sm: "sint (mA2raw K d x) = X * Sv div F"
    using sint_eq_uint_small[of "mA2raw K d x"] fits m unfolding X_def Sv_def F_def by simp
  have r0: "0 \<le> sint (mA2raw K d x)" using sm rt(1) by simp
  have p: "sint (mA2raw K d x) * sint (senseFactorInternal d) < 2 ^ 31"
    using rt(2) prod unfolding sm X_def Sv_def F_def by linarith
  have xl: "X < 2 ^ LENGTH('w)" unfolding X_def by (rule uint_lt2p)
  have y: "sint (mA2raw K d x) * sint (senseFactorInternal d) div sint (senseScale K) < 2 ^ LENGTH('w)"
    using rt(4) xl unfolding sm X_def Sv_def F_def by linarith
  show ?thesis
    using raw2mA_value[OF len f S r0 p y] unfolding sm X_def Sv_def F_def by simp
qed

text \<open>
  Where \<open>int\<close> has 32 bits the raw value always fits: it is at most the first product.
\<close>

lemma round_trip_value32:
  fixes d :: "32 motor_driver"
  assumes f: "0 < sint (senseFactorInternal d)"
      and S: "0 < sint (senseScale K)"
      and prod: "uint x * sint (senseScale K) < 2 ^ 31"
  shows "uint (raw2mA K d (mA2raw K d x)) =
           (uint x * sint (senseScale K) div sint (senseFactorInternal d)) *
             sint (senseFactorInternal d) div sint (senseScale K)"
proof -
  have p0: "0 \<le> uint x * sint (senseScale K)" using S by simp
  have "uint x * sint (senseScale K) div sint (senseFactorInternal d) \<le> uint x * sint (senseScale K)"
    using p0 f by (rule div_le_self_int)
  with prod have "uint x * sint (senseScale K) div sint (senseFactorInternal d) < 2 ^ (LENGTH(32) - 1)"
    by simp
  then show ?thesis
    by (intro round_trip_value) (use f S prod in simp_all)
qed

text \<open>
  Claim C8, as the specification states it, fails where \<open>int\<close> has 16 bits: with sense
  factor 1.27 (325 after scaling by 256) both products of the round trip of 50000 mA are
  within 32 bits, yet \<open>mA2raw\<close> returns 39384 as \<open>unsigned int\<close>, which \<open>raw2mA\<close> receives as
  the \<open>int\<close> -26152, and the round trip is 32336 mA.

  Claim C8, amended. With positive \<open>senseFactorInternal\<close> and \<open>senseScale\<close>, for every
  milliamp value \<open>x\<close> whose product with \<open>senseScale\<close> fits in 32-bit arithmetic and whose
  raw value \<open>x * senseScale / senseFactorInternal\<close> fits in an \<open>int\<close>, the round trip
  \<open>raw2mA(mA2raw(x))\<close> is at most \<open>x\<close> and falls short of \<open>x\<close> by less than
  \<open>senseFactorInternal / senseScale + 1\<close>, the truncation of the two divisions.
\<close>

theorem conversion_round_trip:
  fixes d :: "'w::len motor_driver"
  assumes len: "LENGTH('w) \<le> 32"
      and f: "0 < sint (senseFactorInternal d)"
      and S: "0 < sint (senseScale K)"
      and prod: "uint x * sint (senseScale K) < 2 ^ 31"
      and fits: "uint x * sint (senseScale K) div sint (senseFactorInternal d) < 2 ^ (LENGTH('w) - 1)"
  shows "uint (raw2mA K d (mA2raw K d x)) \<le> uint x \<and>
         (uint x - uint (raw2mA K d (mA2raw K d x))) * sint (senseScale K)
           < sint (senseFactorInternal d) + sint (senseScale K)"
proof -
  have X0: "0 \<le> uint x" by simp
  show ?thesis
    unfolding round_trip_value[OF len f S prod fits]
    using round_trip_int(4,5)[OF X0 S f] by simp
qed

theorem conversion_round_trip_witness:
  "LENGTH(16) \<le> 32 \<and>
   0 < sint (senseFactorInternal main_track) \<and>
   0 < sint (senseScale stock_constants) \<and>
   uint (2000 :: 16 word) * sint (senseScale stock_constants) < 2 ^ 31 \<and>
   uint (2000 :: 16 word) * sint (senseScale stock_constants) div sint (senseFactorInternal main_track)
     < 2 ^ (LENGTH(16) - 1) \<and>
   uint (raw2mA stock_constants main_track (mA2raw stock_constants main_track 2000)) = 1999 \<and>
   uint (raw2mA stock_constants main_track (mA2raw stock_constants main_track 2000)) \<le> uint (2000 :: 16 word) \<and>
   (uint (2000 :: 16 word) - uint (raw2mA stock_constants main_track (mA2raw stock_constants main_track 2000))) *
      sint (senseScale stock_constants)
     < sint (senseFactorInternal main_track) + sint (senseScale stock_constants)"
proof -
  have h: "LENGTH(16) \<le> 32"
          "0 < sint (senseFactorInternal main_track)"
          "0 < sint (senseScale stock_constants)"
          "uint (2000 :: 16 word) * sint (senseScale stock_constants) < 2 ^ 31"
          "uint (2000 :: 16 word) * sint (senseScale stock_constants) div sint (senseFactorInternal main_track)
             < 2 ^ (LENGTH(16) - 1)"
    by (simp_all add: main_track_def stock_constants_def)
  have v: "uint (raw2mA stock_constants main_track (mA2raw stock_constants main_track 2000)) = 1999"
    by (simp add: raw2mA_def mA2raw_def sdiv32_def main_track_def stock_constants_def)
  show ?thesis
    using h v conversion_round_trip[OF h] by simp
qed

theorem round_trip_counterexample:
  "0 < sint (senseFactorInternal (main_track\<lparr>senseFactorInternal := 325\<rparr>)) \<and>
   0 < sint (senseScale stock_constants) \<and>
   uint (50000 :: 16 word) * sint (senseScale stock_constants) < 2 ^ 31 \<and>
   uint (mA2raw stock_constants (main_track\<lparr>senseFactorInternal := 325\<rparr>) 50000) = 39384 \<and>
   sint (mA2raw stock_constants (main_track\<lparr>senseFactorInternal := 325\<rparr>) 50000) = - 26152 \<and>
   \<bar>sint (mA2raw stock_constants (main_track\<lparr>senseFactorInternal := 325\<rparr>) 50000) *
      sint (senseFactorInternal (main_track\<lparr>senseFactorInternal := 325\<rparr>))\<bar> < 2 ^ 31 \<and>
   uint (raw2mA stock_constants (main_track\<lparr>senseFactorInternal := 325\<rparr>)
           (mA2raw stock_constants (main_track\<lparr>senseFactorInternal := 325\<rparr>) 50000)) = 32336 \<and>
   \<not> (uint (50000 :: 16 word) -
        uint (raw2mA stock_constants (main_track\<lparr>senseFactorInternal := 325\<rparr>)
                (mA2raw stock_constants (main_track\<lparr>senseFactorInternal := 325\<rparr>) 50000))) *
       sint (senseScale stock_constants)
       < sint (senseFactorInternal (main_track\<lparr>senseFactorInternal := 325\<rparr>)) +
         sint (senseScale stock_constants)"
  by (simp add: raw2mA_def mA2raw_def sdiv32_def main_track_def stock_constants_def)


section \<open>Construction: the clamp of the trip threshold\<close>





section \<open>Runs of healthy checks\<close>

lemma unat_succ_below:
  fixes c y :: "'w::len word"
  assumes "c < y"
  shows "unat (c + 1) = unat c + 1"
proof -
  have "unat c < unat y" using assms by (simp add: word_less_nat_alt)
  moreover have "unat y < 2 ^ LENGTH('w)" by (rule unsigned_less)
  ultimately have "unat c + 1 < 2 ^ LENGTH('w)" by linarith
  then show ?thesis by (simp add: unat_word_ariths)
qed

lemma unat_100_le: "unat (100 :: 'w::len word) \<le> 100"
proof -
  have "unat (of_nat 100 :: 'w word) \<le> 100"
    unfolding unat_of_nat by (rule mod_less_eq_dividend)
  then show ?thesis by simp
qed

lemma healthy_backoff_stable:
  "healthy_checks K cfp upl tn es d \<Longrightarrow>
   \<not> POWER_SAMPLE_OVERLOAD_WAIT K < power_sample_overload_wait d \<Longrightarrow>
   power_sample_overload_wait (run_checks K cfp upl tn es d) = power_sample_overload_wait d"
proof (induction es arbitrary: d)
  case Nil
  then show ?case by simp
next
  case (Cons e es)
  from Cons.prems(1) have h: "healthy_check K upl e d"
    and rest: "healthy_checks K cfp upl tn es (checkPowerOverload K cfp upl tn e d)"
    by simp_all
  have w: "power_sample_overload_wait (checkPowerOverload K cfp upl tn e d) = power_sample_overload_wait d"
    using Cons.prems(2) by (simp add: check_healthy[OF h] Let_def)
  show ?case
    using Cons.IH[OF rest] Cons.prems(2) w by simp
qed

lemma healthy_backoff_reset:
  "healthy_checks K cfp upl tn es d \<Longrightarrow>
   unat (100 :: 'w word) - unat (power_good_counter d) < length es \<Longrightarrow>
   power_sample_overload_wait (run_checks K cfp upl tn es (d :: 'w::len motor_driver)) =
     (if POWER_SAMPLE_OVERLOAD_WAIT K < power_sample_overload_wait d
      then POWER_SAMPLE_OVERLOAD_WAIT K else power_sample_overload_wait d)"
proof (induction es arbitrary: d)
  case Nil
  then show ?case by simp
next
  case (Cons e es)
  from Cons.prems(1) have h: "healthy_check K upl e d"
    and rest: "healthy_checks K cfp upl tn es (checkPowerOverload K cfp upl tn e d)"
    by simp_all
  show ?case
  proof (cases "power_good_counter d < 100")
    case True
    have c: "power_good_counter (checkPowerOverload K cfp upl tn e d) = power_good_counter d + 1"
      and w: "power_sample_overload_wait (checkPowerOverload K cfp upl tn e d) = power_sample_overload_wait d"
      using True by (simp_all add: check_healthy[OF h] Let_def)
    have lt: "unat (power_good_counter d) < unat (100 :: 'w word)"
      using True by (simp add: word_less_nat_alt)
    have "unat (100 :: 'w word) - unat (power_good_counter (checkPowerOverload K cfp upl tn e d)) < length es"
      using Cons.prems(2) lt unfolding c unat_succ_below[OF True] by simp
    from Cons.IH[OF rest this] show ?thesis by (simp add: w)
  next
    case False
    have w: "power_sample_overload_wait (checkPowerOverload K cfp upl tn e d) =
               (if POWER_SAMPLE_OVERLOAD_WAIT K < power_sample_overload_wait d
                then POWER_SAMPLE_OVERLOAD_WAIT K else power_sample_overload_wait d)"
      using False by (simp add: check_healthy[OF h] Let_def)
    have "\<not> POWER_SAMPLE_OVERLOAD_WAIT K < power_sample_overload_wait (checkPowerOverload K cfp upl tn e d)"
      unfolding w by simp
    from healthy_backoff_stable[OF rest this] show ?thesis by (simp add: w)
  qed
qed

section \<open>Relaxing the backoff\<close>

text \<open>
  Claim C5, as the specification states it, fails: the check that raises the counter to
  100 does not touch the backoff; only a healthy check that finds the counter already
  at 100 clamps it, which takes 101 healthy checks after an overload. After one overload
  of the example driver (delay 20, backoff doubled to 40), the recovery check and 100
  healthy checks, the next trip still assigns 40.

  Claim C5, amended. After 101 or more consecutive healthy checks, starting from any state
  whose backoff is at or above the floor \<open>POWER_SAMPLE_OVERLOAD_WAIT\<close>, the delay assigned
  by the next overload trip equals the floor.
\<close>

theorem backoff_relaxed_after_101:
  fixes d :: "'w::len motor_driver"
  assumes healthy: "healthy_checks K cfp upl tn es d"
      and many: "101 \<le> length es"
      and escalated: "POWER_SAMPLE_OVERLOAD_WAIT K \<le> power_sample_overload_wait d"
      and trip: "tripping_check K upl e (run_checks K cfp upl tn es d)"
  shows "sampleDelay (checkPowerOverload K cfp upl tn e (run_checks K cfp upl tn es d)) =
           POWER_SAMPLE_OVERLOAD_WAIT K"
proof -
  have "unat (100 :: 'w word) - unat (power_good_counter d) < length es"
    using many unat_100_le[where 'w='w] by linarith
  from healthy_backoff_reset[OF healthy this]
  have "power_sample_overload_wait (run_checks K cfp upl tn es d) = POWER_SAMPLE_OVERLOAD_WAIT K"
    using escalated by (simp split: if_splits)
  then show ?thesis
    using check_trip[OF trip, of cfp tn] by simp
qed

theorem backoff_relaxed_after_101_witness:
  "healthy_checks stock_constants False False 0 (polls 100000 100 101 0 False)
     (run_checks stock_constants False False 0 [reading 60000 700 False, reading 80000 0 False] main_track) \<and>
   101 \<le> length (polls 100000 100 101 0 False :: 16 readings list) \<and>
   POWER_SAMPLE_OVERLOAD_WAIT stock_constants \<le>
     power_sample_overload_wait
       (run_checks stock_constants False False 0 [reading 60000 700 False, reading 80000 0 False] main_track) \<and>
   power_sample_overload_wait
       (run_checks stock_constants False False 0 [reading 60000 700 False, reading 80000 0 False] main_track) = 40 \<and>
   tripping_check stock_constants False (reading 5000000 700 False)
     (run_checks stock_constants False False 0 (polls 100000 100 101 0 False)
        (run_checks stock_constants False False 0 [reading 60000 700 False, reading 80000 0 False] main_track)) \<and>
   sampleDelay (checkPowerOverload stock_constants False False 0 (reading 5000000 700 False)
     (run_checks stock_constants False False 0 (polls 100000 100 101 0 False)
        (run_checks stock_constants False False 0 [reading 60000 700 False, reading 80000 0 False] main_track))) = 20"
proof -
  have h1: "healthy_checks stock_constants False False 0 (polls 100000 100 101 0 False)
     (run_checks stock_constants False False 0 [reading 60000 700 False, reading 80000 0 False] main_track)"
    by code_simp
  have h2: "101 \<le> length (polls 100000 100 101 0 False :: 16 readings list)"
    by code_simp
  have h3: "POWER_SAMPLE_OVERLOAD_WAIT stock_constants \<le>
     power_sample_overload_wait
       (run_checks stock_constants False False 0 [reading 60000 700 False, reading 80000 0 False] main_track)"
    by code_simp
  have h4: "tripping_check stock_constants False (reading 5000000 700 False)
     (run_checks stock_constants False False 0 (polls 100000 100 101 0 False)
        (run_checks stock_constants False False 0 [reading 60000 700 False, reading 80000 0 False] main_track))"
    by code_simp
  have v: "power_sample_overload_wait
       (run_checks stock_constants False False 0 [reading 60000 700 False, reading 80000 0 False] main_track) = 40"
    by code_simp
  have F: "POWER_SAMPLE_OVERLOAD_WAIT stock_constants = 20"
    by (simp add: stock_constants_def)
  show ?thesis
    using h1 h2 h3 h4 v backoff_relaxed_after_101[OF h1 h2 h3 h4] unfolding F by simp
qed

theorem backoff_after_100_counterexample:
  "POWER_SAMPLE_OVERLOAD_WAIT stock_constants = 20 \<and>
   sampleDelay (checkPowerOverload stock_constants False False 0 (reading 60000 700 False) main_track) = 20 \<and>
   power_sample_overload_wait
       (run_checks stock_constants False False 0 [reading 60000 700 False, reading 80000 0 False] main_track) = 40 \<and>
   healthy_checks stock_constants False False 0 (polls 100000 100 100 0 False)
     (run_checks stock_constants False False 0 [reading 60000 700 False, reading 80000 0 False] main_track) \<and>
   length (polls 100000 100 100 0 False :: 16 readings list) = 100 \<and>
   tripping_check stock_constants False (reading 5000000 700 False)
     (run_checks stock_constants False False 0 (polls 100000 100 100 0 False)
        (run_checks stock_constants False False 0 [reading 60000 700 False, reading 80000 0 False] main_track)) \<and>
   sampleDelay (checkPowerOverload stock_constants False False 0 (reading 5000000 700 False)
     (run_checks stock_constants False False 0 (polls 100000 100 100 0 False)
        (run_checks stock_constants False False 0 [reading 60000 700 False, reading 80000 0 False] main_track))) = 40"
  by code_simp

section \<open>The backoff sequence of consecutive overloads\<close>

lemma check_overload_keeps_backoff:
  assumes "powerMode d = OVERLOAD" and "effective e d"
  shows "power_sample_overload_wait (checkPowerOverload K cfp upl tn e d) = power_sample_overload_wait d"
  using check_overload[OF assms, of K cfp upl tn]
  by (simp add: call_def setPower_keeps)

text \<open>
  The delays of consecutive overloads are the iterates of the update at the end of a trip,
  starting from the backoff the first trip finds.
\<close>

lemma trip_delays_backoff:
  "overload_cycles K cfp upl tn ps d \<Longrightarrow>
   trip_delays K cfp upl tn ps d = backoff_delays (length ps) (power_sample_overload_wait d)"
proof (induction ps arbitrary: d)
  case Nil
  then show ?case by simp
next
  case (Cons p ps)
  obtain e1 e2 where p: "p = (e1, e2)" by (cases p)
  define d1 where "d1 = checkPowerOverload K cfp upl tn e1 d"
  define d2 where "d2 = checkPowerOverload K cfp upl tn e2 d1"
  from Cons.prems have trip: "tripping_check K upl e1 d"
    and eff: "effective e2 d1"
    and rest: "overload_cycles K cfp upl tn ps d2"
    by (simp_all add: p d1_def d2_def)
  note t = check_trip[OF trip, of cfp tn, folded d1_def]
  have w2: "power_sample_overload_wait d2 =
              (if 10000 \<le> power_sample_overload_wait d then 10000 else power_sample_overload_wait d * 2)"
    unfolding d2_def using check_overload_keeps_backoff[of d1 e2 K cfp upl tn] t eff by simp
  show ?case
    using Cons.IH[OF rest] t
    by (simp add: p d1_def[symmetric] d2_def[symmetric] w2)
qed

text \<open>
  Claim C1 does not hold of the code: the ceiling is applied to the stored backoff only
  on the trip after the one whose doubling passed it, so one delay above 10000 ms is
  assigned before the sequence settles at 10000 ms. Eleven consecutive overloads of the
  example driver, whose floor is 20 ms, get the delays below: the tenth is 10240 ms,
  where the claim has min(512 * 20, 10000) = 10000 ms, and the eleventh is smaller than
  the tenth.
\<close>

theorem overload_delays_from_floor_20:
  "overload_cycles stock_constants False False 0
     [(reading 20000 700 False, reading 40000 700 False),
      (reading 60000 700 False, reading 80000 700 False),
      (reading 100000 700 False, reading 120000 700 False),
      (reading 140000 700 False, reading 160000 700 False),
      (reading 180000 700 False, reading 200000 700 False),
      (reading 220000 700 False, reading 240000 700 False),
      (reading 260000 700 False, reading 280000 700 False),
      (reading 300000 700 False, reading 320000 700 False),
      (reading 340000 700 False, reading 360000 700 False),
      (reading 380000 700 False, reading 400000 700 False),
      (reading 420000 700 False, reading 440000 700 False)] main_track \<and>
   power_sample_overload_wait main_track = POWER_SAMPLE_OVERLOAD_WAIT stock_constants \<and>
   trip_delays stock_constants False False 0
     [(reading 20000 700 False, reading 40000 700 False),
      (reading 60000 700 False, reading 80000 700 False),
      (reading 100000 700 False, reading 120000 700 False),
      (reading 140000 700 False, reading 160000 700 False),
      (reading 180000 700 False, reading 200000 700 False),
      (reading 220000 700 False, reading 240000 700 False),
      (reading 260000 700 False, reading 280000 700 False),
      (reading 300000 700 False, reading 320000 700 False),
      (reading 340000 700 False, reading 360000 700 False),
      (reading 380000 700 False, reading 400000 700 False),
      (reading 420000 700 False, reading 440000 700 False)] main_track =
   [20, 40, 80, 160, 320, 640, 1280, 2560, 5120, 10240, 10000]"
  by code_simp


end
